theory Spec2Isabelle
  imports
    Complex_Main
    "HOL-Library.AList"
    "HOL-Library.Char_ord"
    "HOL-Library.List_Lexorder"
begin

section \<open>Sentiment aggregation of grouped comments (backend/NLP/analysis.py)\<close>

text \<open>
  The module has three functions: two scorers, \<open>vader_sentiment_analysis\<close> and
  \<open>huggingface_sentiment_analysis\<close>, and the aggregator \<open>comments_sentiment_analysis\<close>.
  The polarity lexicon, the tokenizer and the classifier belong to external libraries
  (nltk, transformers); they are parameters of the model. Python exceptions are values
  of the type \<open>error\<close>, and a fallible operation returns \<open>error + 'a\<close>.

  Scores are binary64 floats in the source. Here a score is the real number the float
  denotes. Comparison and negation of floats are exact and are those of the reals; a
  sum or a quotient of floats is the exact result rounded to the nearest float, ties to
  even, and is modelled so (\<open>binary64\<close>). Overflow to infinity and NaN are not modelled:
  they do not arise from fewer than \<open>2^1023\<close> scores in [-1, 1].

  Strings are lists of characters, compared as Python compares \<open>str\<close>: character by
  character by code point, a proper prefix before its extensions.
\<close>

subsection \<open>Data\<close>

datatype error = ZeroDivisionError | ValueError | IndexError

text \<open>The dictionary returned by \<open>analyzer.polarity_scores(comment)\<close>.\<close>

record polarity =
  neg :: real
  neu :: real
  pos :: real
  compound :: real

text \<open>
  The pipeline answers a call on one string with a one-element list of dictionaries, of
  which the source reads \<open>sentiment[0]["label"]\<close> and \<open>sentiment[0]["score"]\<close>.
  A \<open>classification\<close> is that element.
\<close>

record classification =
  label :: string
  score :: real

text \<open>
  What the source uses of \<open>sentiment_pipeline\<close>: \<open>tokenizer.tokenize\<close>,
  \<open>tokenizer.convert_tokens_to_string\<close> and the call of the pipeline itself.
\<close>

record pipeline =
  tokenize :: "string \<Rightarrow> string list"
  convert_tokens_to_string :: "string list \<Rightarrow> string"
  classify :: "string \<Rightarrow> classification"

text \<open>One value of the result dictionary.\<close>

record group_summary =
  avg_sentiment :: real
  max_sentiment_comment :: string
  max_sentiment :: real
  min_sentiment_comment :: string
  min_sentiment :: real

text \<open>
  A Python \<open>dict\<close> keeps its items in insertion order. It is modelled by the list of
  its items; \<open>d[key] = v\<close> is \<^const>\<open>AList.update\<close>, which overwrites the value of a
  key already present where it stands, and appends a new key at the end.
\<close>

type_synonym comment_groups = "(string \<times> string list) list"
type_synonym result_dict = "(string \<times> group_summary) list"

subsection \<open>Python built-ins used by the aggregator\<close>

definition bind_result :: "error + 'a \<Rightarrow> ('a \<Rightarrow> error + 'b) \<Rightarrow> error + 'b" where
  "bind_result m f = (case m of Inl e \<Rightarrow> Inl e | Inr x \<Rightarrow> f x)"

text \<open>
  Rounding to binary64. A float is an integer multiple of a power of two, \<open>m * 2^e\<close>
  with \<open>\<bar>m\<bar> < 2^53\<close> and \<open>e \<ge> -1074\<close>. The exponent of the last place of the floats
  around \<open>x\<close> is \<open>ulp_exponent x\<close>: 52 below the exponent of \<open>x\<close>, and -1074 in the
  subnormal range. \<open>binary64 x\<close> is the multiple of that power of two nearest to \<open>x\<close>,
  the even one of two that are equally near.
\<close>

definition round_half_even :: "real \<Rightarrow> int" where
  "round_half_even z =
     (let f = \<lfloor>z\<rfloor>; r = z - of_int f
      in if r < 1 / 2 then f else if 1 / 2 < r then f + 1 else if even f then f else f + 1)"

definition ulp_exponent :: "real \<Rightarrow> int" where
  "ulp_exponent x = max (\<lfloor>log 2 \<bar>x\<bar>\<rfloor> - 52) (- 1074)"

definition binary64 :: "real \<Rightarrow> real" where
  "binary64 x =
     (if x = 0 then 0
      else of_int (round_half_even (x / 2 powi ulp_exponent x)) * 2 powi ulp_exponent x)"

text \<open>
  \<open>sum(xs)\<close>: starts at 0 and adds from the left, each addition rounded. (This is the
  summation of CPython up to 3.11; later versions carry a compensation term.)
\<close>

definition py_sum :: "real list \<Rightarrow> real" where
  "py_sum xs = foldl (\<lambda>acc x. binary64 (acc + x)) 0 xs"

text \<open>
  \<open>a / len(xs)\<close>: the quotient rounded. The length converts to a float exactly below
  \<open>2^53\<close>.
\<close>

definition py_truediv :: "real \<Rightarrow> nat \<Rightarrow> error + real" where
  "py_truediv a n = (if n = 0 then Inl ZeroDivisionError else Inr (binary64 (a / real n)))"

text \<open>
  \<open>max(xs)\<close> and \<open>min(xs)\<close> raise ValueError on an empty list; otherwise they keep the
  first element and replace it by a later one that is strictly greater (smaller).
\<close>

fun py_max :: "real list \<Rightarrow> error + real" where
  "py_max [] = Inl ValueError"
| "py_max (x # xs) = Inr (foldl (\<lambda>m y. if y > m then y else m) x xs)"

fun py_min :: "real list \<Rightarrow> error + real" where
  "py_min [] = Inl ValueError"
| "py_min (x # xs) = Inr (foldl (\<lambda>m y. if y < m then y else m) x xs)"

text \<open>\<open>xs.index(x)\<close>: the first position holding \<open>x\<close>, ValueError when there is none.\<close>

fun py_index :: "'a list \<Rightarrow> 'a \<Rightarrow> error + nat" where
  "py_index [] x = Inl ValueError"
| "py_index (y # ys) x =
     (if y = x then Inr 0
      else case py_index ys x of Inl e \<Rightarrow> Inl e | Inr i \<Rightarrow> Inr (Suc i))"

text \<open>\<open>xs[i]\<close> for an index that is not negative.\<close>

definition py_getitem :: "'a list \<Rightarrow> nat \<Rightarrow> error + 'a" where
  "py_getitem xs i = (if i < length xs then Inr (xs ! i) else Inl IndexError)"

subsection \<open>The lexicon scorer\<close>

text \<open>The loop of \<open>vader_sentiment_analysis\<close>, appending one compound score per comment.\<close>

fun vader_loop :: "(string \<Rightarrow> polarity) \<Rightarrow> string list \<Rightarrow> real list \<Rightarrow> real list" where
  "vader_loop polarity_scores [] sentiment_scores = sentiment_scores"
| "vader_loop polarity_scores (comment # rest) sentiment_scores =
     (let sentiment = polarity_scores comment
      in vader_loop polarity_scores rest (sentiment_scores @ [compound sentiment]))"

definition vader_sentiment_analysis :: "(string \<Rightarrow> polarity) \<Rightarrow> string list \<Rightarrow> real list" where
  "vader_sentiment_analysis polarity_scores comments = vader_loop polarity_scores comments []"

subsection \<open>The classifier scorer\<close>

text \<open>
  The loop of \<open>huggingface_sentiment_analysis\<close>. A comment is classified only when it
  has fewer than 510 tokens; the slice \<open>[:510]\<close> sits inside that branch.
\<close>

fun hf_loop :: "pipeline \<Rightarrow> string list \<Rightarrow> classification list \<Rightarrow> classification list" where
  "hf_loop sentiment_pipeline [] sentiment_scores = sentiment_scores"
| "hf_loop sentiment_pipeline (comment # rest) sentiment_scores =
     (let tokenized_comment = tokenize sentiment_pipeline comment
      in if length tokenized_comment < 510
         then
           (let tokenized_comment = take 510 tokenized_comment;
                truncated_comment = convert_tokens_to_string sentiment_pipeline tokenized_comment;
                sentiment = classify sentiment_pipeline truncated_comment
            in hf_loop sentiment_pipeline rest (sentiment_scores @ [sentiment]))
         else hf_loop sentiment_pipeline rest sentiment_scores)"

text \<open>The element expression of the list comprehension that removes the label.\<close>

definition signed_score :: "classification \<Rightarrow> real" where
  "signed_score sentiment =
     (if label sentiment = ''POSITIVE'' then score sentiment else - score sentiment)"

definition huggingface_sentiment_analysis :: "pipeline \<Rightarrow> string list \<Rightarrow> real list" where
  "huggingface_sentiment_analysis sentiment_pipeline comments =
     map signed_score (hf_loop sentiment_pipeline comments [])"

subsection \<open>The aggregator\<close>

text \<open>
  The statements that follow the scorer's call in the body of each \<open>for\<close> loop of
  \<open>comments_sentiment_analysis\<close>; they are the same in the two branches.
\<close>

definition summarise :: "real list \<Rightarrow> string list \<Rightarrow> error + group_summary" where
  "summarise sentiment_scores value =
     bind_result (py_truediv (py_sum sentiment_scores) (length sentiment_scores)) (\<lambda>avg.
     bind_result (py_max sentiment_scores) (\<lambda>max_sentiment_score.
     bind_result (py_index sentiment_scores max_sentiment_score) (\<lambda>i.
     bind_result (py_getitem value i) (\<lambda>max_comment.
     bind_result (py_min sentiment_scores) (\<lambda>min_sentiment_score.
     bind_result (py_index sentiment_scores min_sentiment_score) (\<lambda>j.
     bind_result (py_getitem value j) (\<lambda>min_comment.
       Inr \<lparr>avg_sentiment = avg,
            max_sentiment_comment = max_comment,
            max_sentiment = max_sentiment_score,
            min_sentiment_comment = min_comment,
            min_sentiment = min_sentiment_score\<rparr>)))))))"

text \<open>
  The loop \<open>for key, value in comments.items()\<close>, with the scorer of the branch as a
  parameter. An exception leaves the loop and the function.
\<close>

fun group_loop ::
  "(string list \<Rightarrow> real list) \<Rightarrow> comment_groups \<Rightarrow> result_dict \<Rightarrow> error + result_dict" where
  "group_loop scorer [] results = Inr results"
| "group_loop scorer ((key, value) # items) results =
     (if value = [] then group_loop scorer items results
      else case summarise (scorer value) value of
             Inl e \<Rightarrow> Inl e
           | Inr entry \<Rightarrow> group_loop scorer items (AList.update key entry results))"

definition comments_sentiment_analysis ::
  "(string \<Rightarrow> polarity) \<Rightarrow> pipeline \<Rightarrow> comment_groups \<Rightarrow> string \<Rightarrow> error + result_dict" where
  "comments_sentiment_analysis polarity_scores sentiment_pipeline comments method =
     (case (if method = ''vader''
            then group_loop (vader_sentiment_analysis polarity_scores) comments []
            else if method = ''ml''
            then group_loop (huggingface_sentiment_analysis sentiment_pipeline) comments []
            else Inr [])
      of Inl e \<Rightarrow> Inl e
       | Inr results \<Rightarrow> Inr (sort_key fst results))"

subsection \<open>Notions used in the statements\<close>

text \<open>The first position of \<open>x\<close> in \<open>xs\<close>, or the length of \<open>xs\<close> when there is none.\<close>

definition first_index :: "'a list \<Rightarrow> 'a \<Rightarrow> nat" where
  "first_index xs x = length (takeWhile (\<lambda>y. y \<noteq> x) xs)"

text \<open>
  The entry that the loop body stores for a group, written with the extremes of the score
  list and their first positions.
\<close>

definition group_entry :: "real list \<Rightarrow> string list \<Rightarrow> group_summary" where
  "group_entry scores value =
     \<lparr>avg_sentiment = binary64 (py_sum scores / real (length scores)),
      max_sentiment_comment = value ! first_index scores (Max (set scores)),
      max_sentiment = Max (set scores),
      min_sentiment_comment = value ! first_index scores (Min (set scores)),
      min_sentiment = Min (set scores)\<rparr>"

text \<open>The scorer that a supported method selects.\<close>

definition scorer_of :: "(string \<Rightarrow> polarity) \<Rightarrow> pipeline \<Rightarrow> string \<Rightarrow> string list \<Rightarrow> real list" where
  "scorer_of polarity_scores sentiment_pipeline method =
     (if method = ''vader'' then vader_sentiment_analysis polarity_scores
      else huggingface_sentiment_analysis sentiment_pipeline)"

subsection \<open>Stand-ins for the external models\<close>

text \<open>
  Concrete collaborators on which the functions can be evaluated: a lexicon that knows
  two words, a tokenizer that makes one token of each character, and a classifier that
  knows one word. Their scores are dyadic, so sums and quotients of them are exact in
  binary64 too. \<open>oversized\<close> is a comment of 510 tokens.
\<close>

definition lexicon_stub :: "string \<Rightarrow> polarity" where
  "lexicon_stub comment =
     (if comment = ''great'' then \<lparr>neg = 0, neu = 0, pos = 1, compound = 5 / 8\<rparr>
      else if comment = ''terrible'' then \<lparr>neg = 1, neu = 0, pos = 0, compound = - (1 / 2)\<rparr>
      else \<lparr>neg = 0, neu = 1, pos = 0, compound = 0\<rparr>)"

definition pipeline_stub :: pipeline where
  "pipeline_stub =
     \<lparr>tokenize = map (\<lambda>ch. [ch]),
      convert_tokens_to_string = concat,
      classify = (\<lambda>text. if text = ''good'' then \<lparr>label = ''POSITIVE'', score = 3 / 4\<rparr>
                         else \<lparr>label = ''NEGATIVE'', score = 1 / 2\<rparr>)\<rparr>"

definition oversized :: string where
  "oversized = replicate 510 (CHR ''a'')"

text \<open>A mapping with an empty group, a group with ties, and keys out of order; and
  what the lexicon path returns for it.\<close>

definition sample_groups :: comment_groups where
  "sample_groups =
     [(''2023-02'', []),
      (''2023-03'', [''meh'', ''great'', ''great'', ''meh'']),
      (''2023-01'', [''great'', ''terrible''])]"

definition sample_result :: result_dict where
  "sample_result =
     [(''2023-01'',
        \<lparr>avg_sentiment = 1 / 16,
         max_sentiment_comment = ''great'', max_sentiment = 5 / 8,
         min_sentiment_comment = ''terrible'', min_sentiment = - (1 / 2)\<rparr>),
      (''2023-03'',
        \<lparr>avg_sentiment = 5 / 16,
         max_sentiment_comment = ''great'', max_sentiment = 5 / 8,
         min_sentiment_comment = ''meh'', min_sentiment = 0\<rparr>)]"


section \<open>Properties\<close>

subsection \<open>The scorers as maps\<close>

lemma vader_loop_map:
  "vader_loop ps cs acc = acc @ map (\<lambda>c. compound (ps c)) cs"
  by (induction cs arbitrary: acc) simp_all

lemma vader_map: "vader_sentiment_analysis ps cs = map (\<lambda>c. compound (ps c)) cs"
  by (simp add: vader_sentiment_analysis_def vader_loop_map)

lemma hf_loop_filter:
  "hf_loop p cs acc =
     acc @ map (\<lambda>c. classify p (convert_tokens_to_string p (take 510 (tokenize p c))))
               (filter (\<lambda>c. length (tokenize p c) < 510) cs)"
  by (induction cs arbitrary: acc) (simp_all add: Let_def)

lemma hf_map_filter:
  "huggingface_sentiment_analysis p cs =
     map (\<lambda>c. signed_score (classify p (convert_tokens_to_string p (take 510 (tokenize p c)))))
         (filter (\<lambda>c. length (tokenize p c) < 510) cs)"
  by (simp add: huggingface_sentiment_analysis_def hf_loop_filter comp_def)

lemma hf_length_le: "length (huggingface_sentiment_analysis p cs) \<le> length cs"
  by (simp add: hf_map_filter)

lemma hf_empty_iff:
  "huggingface_sentiment_analysis p cs = [] \<longleftrightarrow> (\<forall>c\<in>set cs. 510 \<le> length (tokenize p c))"
  by (auto simp: hf_map_filter filter_empty_conv not_less)

subsection \<open>The built-ins and the loop body\<close>

lemma foldl_keep_greater:
  "foldl (\<lambda>m y. if y > m then y else m) (x::real) xs = Max (set (x # xs))"
proof -
  have "foldl (\<lambda>m y. if y > m then y else m) x xs = fold max xs x"
    by (induction xs arbitrary: x) (simp_all add: max_def)
  then show ?thesis using Max.set_eq_fold [of x xs] by simp
qed

lemma foldl_keep_smaller:
  "foldl (\<lambda>m y. if y < m then y else m) (x::real) xs = Min (set (x # xs))"
proof -
  have "foldl (\<lambda>m y. if y < m then y else m) x xs = fold min xs x"
    by (induction xs arbitrary: x) (simp_all add: min_def)
  then show ?thesis using Min.set_eq_fold [of x xs] by simp
qed

lemma py_max_Max: "xs \<noteq> [] \<Longrightarrow> py_max xs = Inr (Max (set xs))"
  by (cases xs) (simp_all add: foldl_keep_greater)

lemma py_min_Min: "xs \<noteq> [] \<Longrightarrow> py_min xs = Inr (Min (set xs))"
  by (cases xs) (simp_all add: foldl_keep_smaller)

lemma py_index_first: "x \<in> set xs \<Longrightarrow> py_index xs x = Inr (first_index xs x)"
  by (induction xs) (auto simp: first_index_def)

lemma py_index_missing: "x \<notin> set xs \<Longrightarrow> py_index xs x = Inl ValueError"
  by (induction xs) auto

lemma first_index_less: "x \<in> set xs \<Longrightarrow> first_index xs x < length xs"
  by (induction xs) (auto simp: first_index_def)

lemma first_index_nth: "x \<in> set xs \<Longrightarrow> xs ! first_index xs x = x"
  by (induction xs) (auto simp: first_index_def)

lemma first_index_least: "j < first_index xs x \<Longrightarrow> xs ! j \<noteq> x"
proof (induction xs arbitrary: j)
  case Nil
  then show ?case by (simp add: first_index_def)
next
  case (Cons y ys)
  then show ?case by (cases j) (auto simp: first_index_def split: if_splits)
qed

lemma summarise_empty: "summarise [] value = Inl ZeroDivisionError"
  by (simp add: summarise_def py_truediv_def bind_result_def)

lemma summarise_ok:
  assumes "scores \<noteq> []" and "length scores \<le> length value"
  shows "summarise scores value = Inr (group_entry scores value)"
proof -
  have mx: "Max (set scores) \<in> set scores" and mn: "Min (set scores) \<in> set scores"
    using assms(1) by simp_all
  have i: "first_index scores (Max (set scores)) < length value"
    using first_index_less [OF mx] assms(2) by simp
  have j: "first_index scores (Min (set scores)) < length value"
    using first_index_less [OF mn] assms(2) by simp
  show ?thesis
    using assms(1) i j
    by (simp add: summarise_def bind_result_def py_truediv_def py_max_Max py_min_Min
        py_index_first [OF mx] py_index_first [OF mn] py_getitem_def group_entry_def)
qed

subsection \<open>The loop over the groups\<close>

lemma group_loop_keys:
  "group_loop scorer items results = Inr res \<Longrightarrow>
   fst ` set res = fst ` set results \<union> {k. \<exists>v. (k, v) \<in> set items \<and> v \<noteq> []}"
proof (induction scorer items results rule: group_loop.induct)
  case (1 scorer results)
  then show ?case by simp
next
  case (2 scorer key "value" items results)
  then show ?case
    by (auto simp: dom_update split: if_splits sum.splits)
qed

lemma group_loop_distinct:
  "group_loop scorer items results = Inr res \<Longrightarrow> distinct (map fst results) \<Longrightarrow>
   distinct (map fst res)"
  by (induction scorer items results rule: group_loop.induct)
     (auto simp: distinct_update split: if_splits sum.splits)

lemma group_loop_other:
  "group_loop scorer items results = Inr res \<Longrightarrow> k \<notin> fst ` set items \<Longrightarrow>
   map_of res k = map_of results k"
  by (induction scorer items results rule: group_loop.induct)
     (auto simp: update_conv' split: if_splits sum.splits)

lemma group_loop_entry:
  assumes len: "\<And>v. length (scorer v) \<le> length v"
  shows "group_loop scorer items results = Inr res \<Longrightarrow> distinct (map fst items) \<Longrightarrow>
   (k, v) \<in> set items \<Longrightarrow> v \<noteq> [] \<Longrightarrow> map_of res k = Some (group_entry (scorer v) v)"
proof (induction items arbitrary: results)
  case Nil
  then show ?case by simp
next
  case (Cons item items)
  obtain key "value" where item: "item = (key, value)" by (cases item)
  show ?case
  proof (cases "value = []")
    case True
    with Cons item show ?thesis by auto
  next
    case False
    show ?thesis
    proof (cases "scorer value = []")
      case True
      with False Cons.prems(1) item show ?thesis by (simp add: summarise_empty)
    next
      case nonempty: False
      have s: "summarise (scorer value) value = Inr (group_entry (scorer value) value)"
        using nonempty len by (rule summarise_ok)
      from Cons.prems(1) item False s
      have rest: "group_loop scorer items (AList.update key (group_entry (scorer value) value) results) = Inr res"
        by simp
      show ?thesis
      proof (cases "(k, v) = (key, value)")
        case True
        have "key \<notin> fst ` set items" using Cons.prems(2) item by simp
        from group_loop_other [OF rest this] True show ?thesis by (simp add: update_conv')
      next
        case False
        with Cons.prems(3) item have "(k, v) \<in> set items" by auto
        from Cons.IH [OF rest _ this Cons.prems(4)] Cons.prems(2) show ?thesis by simp
      qed
    qed
  qed
qed

lemma group_loop_error:
  assumes len: "\<And>v. length (scorer v) \<le> length v"
  shows "group_loop scorer items results = Inl e \<Longrightarrow>
         e = ZeroDivisionError \<and> (\<exists>(k, v)\<in>set items. v \<noteq> [] \<and> scorer v = [])"
proof (induction items arbitrary: results)
  case Nil
  then show ?case by simp
next
  case (Cons item items)
  obtain key "value" where item: "item = (key, value)" by (cases item)
  show ?case
  proof (cases "value = []")
    case True
    with Cons item show ?thesis by auto
  next
    case False
    show ?thesis
    proof (cases "scorer value = []")
      case True
      with False Cons.prems item show ?thesis by (auto simp: summarise_empty)
    next
      case nonempty: False
      have s: "summarise (scorer value) value = Inr (group_entry (scorer value) value)"
        using nonempty len by (rule summarise_ok)
      from Cons.prems item False s
      have "group_loop scorer items (AList.update key (group_entry (scorer value) value) results) = Inl e"
        by simp
      from Cons.IH [OF this] show ?thesis by auto
    qed
  qed
qed

lemma group_loop_raises:
  assumes len: "\<And>v. length (scorer v) \<le> length v"
  shows "(k, v) \<in> set items \<Longrightarrow> v \<noteq> [] \<Longrightarrow> scorer v = [] \<Longrightarrow>
         group_loop scorer items results = Inl ZeroDivisionError"
proof (induction items arbitrary: results)
  case Nil
  then show ?case by simp
next
  case (Cons item items)
  obtain key "value" where item: "item = (key, value)" by (cases item)
  show ?case
  proof (cases "value = [] \<or> scorer value \<noteq> []")
    case True
    then have "(k, v) \<noteq> (key, value)" using Cons.prems by auto
    with Cons.prems item have tl: "(k, v) \<in> set items" by auto
    show ?thesis
    proof (cases "value = []")
      case True
      with Cons.IH [OF tl Cons.prems(2,3)] item show ?thesis by simp
    next
      case False
      with True have "summarise (scorer value) value = Inr (group_entry (scorer value) value)"
        using len by (simp add: summarise_ok)
      with False Cons.IH [OF tl Cons.prems(2,3)] item show ?thesis by simp
    qed
  next
    case False
    with item show ?thesis by (simp add: summarise_empty)
  qed
qed

lemma sort_key_fst_facts:
  fixes res :: "result_dict"
  shows "set (sort_key fst res) = set res"
    and "sorted (map fst (sort_key fst res))"
    and "distinct (map fst res) \<Longrightarrow> distinct (map fst (sort_key fst res))"
proof -
  show "set (sort_key fst res) = set res" by simp
  show "sorted (map fst (sort_key fst res))" by simp
  assume "distinct (map fst res)"
  then show "distinct (map fst (sort_key fst res))" by (simp add: distinct_map)
qed


subsection \<open>The aggregator on a whole mapping\<close>

lemma scorer_of_length: "length (scorer_of ps p method v) \<le> length v"
  by (simp add: scorer_of_def vader_map hf_length_le)

lemma csa_supported:
  "method = ''vader'' \<or> method = ''ml'' \<Longrightarrow>
   comments_sentiment_analysis ps p comments method =
     (case group_loop (scorer_of ps p method) comments [] of
        Inl e \<Rightarrow> Inl e | Inr results \<Rightarrow> Inr (sort_key fst results))"
  by (auto simp: comments_sentiment_analysis_def scorer_of_def)

lemma csa_unsupported:
  "method \<noteq> ''vader'' \<Longrightarrow> method \<noteq> ''ml'' \<Longrightarrow>
   comments_sentiment_analysis ps p comments method = Inr []"
  by (simp add: comments_sentiment_analysis_def)

lemma csa_Inr:
  assumes "comments_sentiment_analysis ps p comments method = Inr res"
  shows "res = [] \<and> method \<noteq> ''vader'' \<and> method \<noteq> ''ml'' \<or>
         (method = ''vader'' \<or> method = ''ml'') \<and>
         (\<exists>r. group_loop (scorer_of ps p method) comments [] = Inr r \<and> res = sort_key fst r)"
proof (cases "method = ''vader'' \<or> method = ''ml''")
  case True
  with assms show ?thesis by (auto simp: csa_supported split: sum.splits)
next
  case False
  with assms show ?thesis by (simp add: csa_unsupported)
qed

lemma csa_keys:
  assumes "comments_sentiment_analysis ps p comments method = Inr res"
  shows "fst ` set res \<subseteq> {k. \<exists>v. (k, v) \<in> set comments \<and> v \<noteq> []}"
proof
  fix k
  assume "k \<in> fst ` set res"
  then have "res \<noteq> []" by auto
  with csa_Inr [OF assms] obtain r where
    r: "group_loop (scorer_of ps p method) comments [] = Inr r" and res: "res = sort_key fst r"
    by blast
  from res \<open>k \<in> fst ` set res\<close> have k: "k \<in> fst ` set r" by simp
  from group_loop_keys [OF r] k show "k \<in> {k. \<exists>v. (k, v) \<in> set comments \<and> v \<noteq> []}"
    by simp
qed

lemma csa_sorted:
  assumes "comments_sentiment_analysis ps p comments method = Inr res"
  shows "sorted (map fst res) \<and> distinct (map fst res)"
  using csa_Inr [OF assms]
  by (auto dest!: group_loop_distinct simp: sort_key_fst_facts simp del: distinct_map)

lemma csa_entry:
  assumes run: "comments_sentiment_analysis ps p comments method = Inr res"
    and dist: "distinct (map fst comments)"
    and inp: "(key, value) \<in> set comments"
    and out: "(key, entry) \<in> set res"
  shows "(method = ''vader'' \<or> method = ''ml'') \<and> value \<noteq> [] \<and>
         scorer_of ps p method value \<noteq> [] \<and>
         entry = group_entry (scorer_of ps p method value) value"
proof -
  from csa_Inr [OF run] out obtain r where
    m: "method = ''vader'' \<or> method = ''ml''" and
    r: "group_loop (scorer_of ps p method) comments [] = Inr r" and
    res: "res = sort_key fst r"
    by auto
  from out res have mem: "(key, entry) \<in> set r" by simp
  then have "key \<in> fst ` set r" by force
  with group_loop_keys [OF r] obtain v where v: "(key, v) \<in> set comments" "v \<noteq> []" by auto
  from dist v(1) inp have "v = value" by (rule eq_key_imp_eq_value)
  with v have ne: "value \<noteq> []" by simp
  have len: "\<And>v. length (scorer_of ps p method v) \<le> length v" by (rule scorer_of_length)
  have sc: "scorer_of ps p method value \<noteq> []"
  proof
    assume "scorer_of ps p method value = []"
    from group_loop_raises [OF len inp ne this] r show False by simp
  qed
  have "map_of r key = Some (group_entry (scorer_of ps p method value) value)"
    using len r dist inp ne by (rule group_loop_entry)
  moreover have "distinct (map fst r)" using group_loop_distinct [OF r] by simp
  then have "map_of r key = Some entry" using mem by simp
  ultimately show ?thesis using m ne sc by simp
qed

lemma group_entry_max:
  assumes "scores \<noteq> []"
  shows "first_index scores (max_sentiment (group_entry scores value)) < length scores"
    and "scores ! first_index scores (max_sentiment (group_entry scores value)) =
         max_sentiment (group_entry scores value)"
    and "max_sentiment_comment (group_entry scores value) =
         value ! first_index scores (max_sentiment (group_entry scores value))"
    and "\<forall>x\<in>set scores. x \<le> max_sentiment (group_entry scores value)"
  using assms by (simp_all add: group_entry_def first_index_less first_index_nth)

lemma group_entry_min:
  assumes "scores \<noteq> []"
  shows "first_index scores (min_sentiment (group_entry scores value)) < length scores"
    and "scores ! first_index scores (min_sentiment (group_entry scores value)) =
         min_sentiment (group_entry scores value)"
    and "min_sentiment_comment (group_entry scores value) =
         value ! first_index scores (min_sentiment (group_entry scores value))"
    and "\<forall>x\<in>set scores. min_sentiment (group_entry scores value) \<le> x"
  using assms by (simp_all add: group_entry_def first_index_less first_index_nth)


subsection \<open>Errors, lookups and the order of the items\<close>

lemma vader_never_empty: "v \<noteq> [] \<Longrightarrow> vader_sentiment_analysis ps v \<noteq> []"
  by (simp add: vader_map)

lemma csa_Inl:
  assumes "comments_sentiment_analysis ps p comments method = Inl e"
  shows "(method = ''vader'' \<or> method = ''ml'') \<and>
         group_loop (scorer_of ps p method) comments [] = Inl e"
proof (cases "method = ''vader'' \<or> method = ''ml''")
  case True
  with assms show ?thesis by (auto simp: csa_supported split: sum.splits)
next
  case False
  with assms show ?thesis by (simp add: csa_unsupported)
qed

lemma csa_error_is_ml_division:
  assumes "comments_sentiment_analysis ps p comments method = Inl e"
  shows "e = ZeroDivisionError \<and> method = ''ml'' \<and>
         (\<exists>(key, value)\<in>set comments. value \<noteq> [] \<and> (\<forall>c\<in>set value. 510 \<le> length (tokenize p c)))"
proof -
  from csa_Inl [OF assms] have m: "method = ''vader'' \<or> method = ''ml''"
    and g: "group_loop (scorer_of ps p method) comments [] = Inl e" by simp_all
  have len: "\<And>v. length (scorer_of ps p method v) \<le> length v" by (rule scorer_of_length)
  from group_loop_error [OF len g] obtain key "value" where
    e: "e = ZeroDivisionError" and kv: "(key, value) \<in> set comments" and
    ne: "value \<noteq> []" and emp: "scorer_of ps p method value = []"
    by auto
  have ml: "method = ''ml''"
  proof (rule ccontr)
    assume "method \<noteq> ''ml''"
    with m have "method = ''vader''" by simp
    with emp have "vader_sentiment_analysis ps value = []" by (simp add: scorer_of_def)
    with vader_never_empty [OF ne] show False by simp
  qed
  with emp have "huggingface_sentiment_analysis p value = []" by (simp add: scorer_of_def)
  then have "\<forall>c\<in>set value. 510 \<le> length (tokenize p c)" by (simp add: hf_empty_iff)
  with e ml kv ne show ?thesis by blast
qed

lemma csa_ml_raises:
  assumes kv: "(key, value) \<in> set comments" and ne: "value \<noteq> []"
    and big: "\<forall>c\<in>set value. 510 \<le> length (tokenize p c)"
  shows "comments_sentiment_analysis ps p comments ''ml'' = Inl ZeroDivisionError"
proof -
  have len: "\<And>v. length (scorer_of ps p ''ml'' v) \<le> length v" by (rule scorer_of_length)
  from big have "scorer_of ps p ''ml'' value = []" by (simp add: scorer_of_def hf_empty_iff)
  from group_loop_raises [OF len kv ne this]
  show ?thesis by (simp add: csa_supported)
qed

lemma scorer_of_if:
  "scorer_of ps p method value =
     (if method = ''vader'' then vader_sentiment_analysis ps value
      else huggingface_sentiment_analysis p value)"
  by (simp add: scorer_of_def)

lemma group_loop_lookup:
  assumes len: "\<And>v. length (scorer v) \<le> length v"
    and run: "group_loop scorer items [] = Inr r"
    and dist: "distinct (map fst items)"
  shows "map_of r k =
         (case map_of items k of None \<Rightarrow> None
          | Some v \<Rightarrow> if v = [] then None else Some (group_entry (scorer v) v))"
proof (cases "map_of items k")
  case None
  then have "k \<notin> fst ` set items" by (simp add: map_of_eq_None_iff)
  from group_loop_other [OF run this] None show ?thesis by simp
next
  case (Some v)
  then have mem: "(k, v) \<in> set items" by (rule map_of_SomeD)
  show ?thesis
  proof (cases "v = []")
    case True
    have "k \<notin> fst ` set r"
    proof
      assume "k \<in> fst ` set r"
      with group_loop_keys [OF run] obtain v' where v': "(k, v') \<in> set items" "v' \<noteq> []" by auto
      from dist v'(1) mem have "v' = v" by (rule eq_key_imp_eq_value)
      with v'(2) True show False by simp
    qed
    then have "map_of r k = None" by (simp add: map_of_eq_None_iff)
    with Some True show ?thesis by simp
  next
    case False
    from group_loop_entry [OF len run dist mem False] Some False show ?thesis by simp
  qed
qed

lemma group_loop_fails_iff:
  assumes len: "\<And>v. length (scorer v) \<le> length v"
  shows "(\<exists>e. group_loop scorer items results = Inl e) \<longleftrightarrow>
         (\<exists>(k, v)\<in>set items. v \<noteq> [] \<and> scorer v = [])"
proof
  assume "\<exists>e. group_loop scorer items results = Inl e"
  then obtain e where "group_loop scorer items results = Inl e" ..
  from group_loop_error [OF len this] show "\<exists>(k, v)\<in>set items. v \<noteq> [] \<and> scorer v = []" by simp
next
  assume "\<exists>(k, v)\<in>set items. v \<noteq> [] \<and> scorer v = []"
  then obtain k v where "(k, v) \<in> set items" "v \<noteq> []" "scorer v = []" by auto
  from group_loop_raises [OF len this] show "\<exists>e. group_loop scorer items results = Inl e" by blast
qed

lemma sorted_keys_unique:
  fixes xs ys :: "('k::linorder \<times> 'v) list"
  assumes "sorted (map fst xs)" "distinct (map fst xs)"
    and "sorted (map fst ys)" "distinct (map fst ys)"
    and "set xs = set ys"
  shows "xs = ys"
proof -
  have "set (map fst xs) = set (map fst ys)" using assms(5) by simp
  with assms(1-4) have keys: "map fst xs = map fst ys" by (metis sorted_distinct_set_unique)
  then have l: "length xs = length ys" by (metis length_map)
  have "map_of xs = map_of ys"
    using assms(2,4,5) by (simp add: map_of_inject_set)
  show ?thesis
  proof (rule nth_equalityI [OF l])
    fix i
    assume i: "i < length xs"
    have fx: "fst (xs ! i) = fst (ys ! i)"
      using keys i l by (metis nth_map)
    have "map_of xs (fst (xs ! i)) = Some (snd (xs ! i))"
      using assms(2) i by (simp add: map_of_eq_Some_iff)
    moreover have "map_of ys (fst (ys ! i)) = Some (snd (ys ! i))"
      using assms(4) i l by (simp add: map_of_eq_Some_iff)
    ultimately have "snd (xs ! i) = snd (ys ! i)"
      using \<open>map_of xs = map_of ys\<close> fx by simp
    with fx show "xs ! i = ys ! i" by (simp add: prod_eq_iff)
  qed
qed

lemma csa_order_irrelevant:
  assumes same: "set comments' = set comments"
    and d: "distinct (map fst comments)" and d': "distinct (map fst comments')"
  shows "comments_sentiment_analysis ps p comments' method =
         comments_sentiment_analysis ps p comments method"
proof (cases "method = ''vader'' \<or> method = ''ml''")
  case False
  then show ?thesis by (simp add: csa_unsupported)
next
  case True
  let ?sc = "scorer_of ps p method"
  have len: "\<And>v. length (?sc v) \<le> length v" by (rule scorer_of_length)
  have m: "map_of comments' = map_of comments"
    using same d d' by (simp add: map_of_inject_set)
  show ?thesis
  proof (cases "\<exists>(k, v)\<in>set comments. v \<noteq> [] \<and> ?sc v = []")
    case bad: True
    then obtain k v where kv: "(k, v) \<in> set comments" "v \<noteq> []" "?sc v = []" by auto
    from kv(1) same have kv': "(k, v) \<in> set comments'" by simp
    from group_loop_raises [OF len kv] group_loop_raises [OF len kv' kv(2,3)]
    show ?thesis using True by (simp add: csa_supported)
  next
    case good: False
    with group_loop_fails_iff [OF len, of comments "[]"]
    obtain r where r: "group_loop ?sc comments [] = Inr r"
      by (cases "group_loop ?sc comments []") auto
    from good same group_loop_fails_iff [OF len, of comments' "[]"]
    obtain r' where r': "group_loop ?sc comments' [] = Inr r'"
      by (cases "group_loop ?sc comments' []") auto
    have "map_of r' = map_of r"
      using group_loop_lookup [OF len r d] group_loop_lookup [OF len r' d'] m
      by (intro ext) simp
    moreover have dr: "distinct (map fst r)" "distinct (map fst r')"
      using group_loop_distinct [OF r] group_loop_distinct [OF r'] by simp_all
    ultimately have "set r' = set r" by (simp add: map_of_inject_set)
    then have "set (sort_key fst r') = set (sort_key fst r)" by simp
    moreover have "sorted (map fst (sort_key fst r'))" "sorted (map fst (sort_key fst r))"
      by (rule sort_key_fst_facts(2))+
    moreover have "distinct (map fst (sort_key fst r'))" "distinct (map fst (sort_key fst r))"
      using dr by (simp_all add: sort_key_fst_facts(3) del: distinct_map)
    ultimately have "sort_key fst r' = sort_key fst r" by (intro sorted_keys_unique)
    with r r' True show ?thesis by (simp add: csa_supported)
  qed
qed

lemma vader_extremes_match:
  assumes run: "comments_sentiment_analysis ps p comments ''vader'' = Inr res"
    and dist: "distinct (map fst comments)"
    and out: "(key, entry) \<in> set res"
  shows "compound (ps (max_sentiment_comment entry)) = max_sentiment entry \<and>
         compound (ps (min_sentiment_comment entry)) = min_sentiment entry"
proof -
  from out have "key \<in> fst ` set res" by force
  with csa_keys [OF run] obtain "value" where inp: "(key, value) \<in> set comments" by auto
  let ?scores = "map (\<lambda>c. compound (ps c)) value"
  have s: "scorer_of ps p ''vader'' value = ?scores" by (simp add: scorer_of_def vader_map)
  from csa_entry [OF run dist inp out]
  have ne: "?scores \<noteq> []" and e: "entry = group_entry ?scores value"
    by (simp_all add: s)
  have "compound (ps (max_sentiment_comment entry)) = max_sentiment entry"
    unfolding e using group_entry_max(1,2,3) [OF ne, of "value"] by simp
  moreover have "compound (ps (min_sentiment_comment entry)) = min_sentiment entry"
    unfolding e using group_entry_min(1,2,3) [OF ne, of "value"] by simp
  ultimately show ?thesis by simp
qed

subsection \<open>Rounding to binary64\<close>

lemma rhe_of_int [simp]: "round_half_even (of_int m) = m"
  by (simp add: round_half_even_def)






lemma floor_log2_bounds:
  assumes "0 < x"
  shows "2 powi \<lfloor>log 2 x\<rfloor> \<le> x" and "x < 2 powi (\<lfloor>log 2 x\<rfloor> + 1)"
proof -
  have "2 powr (real_of_int \<lfloor>log 2 x\<rfloor>) \<le> x \<and> x < 2 powr (real_of_int \<lfloor>log 2 x\<rfloor> + 1)"
    using floor_log_eq_powr_iff [of x 2 "\<lfloor>log 2 x\<rfloor>"] assms by simp
  moreover have "real_of_int \<lfloor>log 2 x\<rfloor> + 1 = real_of_int (\<lfloor>log 2 x\<rfloor> + 1)" by simp
  ultimately show "2 powi \<lfloor>log 2 x\<rfloor> \<le> x" and "x < 2 powi (\<lfloor>log 2 x\<rfloor> + 1)"
    by (simp_all only: powr_real_of_int' [of 2, simplified])
qed


lemma ulp_exponent_minus [simp]: "ulp_exponent (- x) = ulp_exponent x"
  by (simp add: ulp_exponent_def)










lemma binary64_exact:
  assumes "\<bar>m\<bar> < 2 ^ 53" and "- 1074 \<le> e"
  shows "binary64 (of_int m * 2 powi e) = of_int m * 2 powi e"
proof (cases "m = 0")
  case True
  then show ?thesis by (simp add: binary64_def)
next
  case False
  define x where "x = real_of_int m * 2 powi e"
  define u where "u = ulp_exponent x"
  let ?k = "\<lfloor>log 2 \<bar>x\<bar>\<rfloor>"
  have abs: "\<bar>x\<bar> = real_of_int \<bar>m\<bar> * 2 powi e" by (simp add: x_def abs_mult)
  have nz: "x \<noteq> 0" using False by (simp add: x_def)
  then have pos: "0 < \<bar>x\<bar>" by simp
  have "real_of_int \<bar>m\<bar> < real_of_int (2 ^ 53)" using assms(1) by (simp only: of_int_less_iff)
  then have "\<bar>x\<bar> < real_of_int (2 ^ 53) * 2 powi e"
    unfolding abs by (intro mult_strict_right_mono) simp_all
  also have "\<dots> = 2 powi (e + 53)" by (simp add: power_int_add mult.commute)
  finally have up: "\<bar>x\<bar> < 2 powi (e + 53)" .
  have "?k < e + 53"
  proof (rule ccontr)
    assume "\<not> ?k < e + 53"
    then have "(2::real) powi (e + 53) \<le> 2 powi ?k" by (intro power_int_increasing) simp_all
    with floor_log2_bounds(1) [OF pos] up show False by linarith
  qed
  with assms(2) have ue: "u \<le> e" by (simp add: u_def ulp_exponent_def)
  define d where "d = nat (e - u)"
  have e: "e = u + int d" using ue by (simp add: d_def)
  have p: "(2::real) powi e = 2 powi u * 2 ^ d"
    by (subst e) (simp add: power_int_add)
  have "x / 2 powi u = real_of_int m * (2 powi u * 2 ^ d) / 2 powi u"
    by (simp only: x_def p)
  also have "\<dots> = real_of_int (m * 2 ^ d)" by simp
  finally have q: "x / 2 powi u = real_of_int (m * 2 ^ d)" .
  have "binary64 x = real_of_int (round_half_even (x / 2 powi u)) * 2 powi u"
    using nz by (simp add: binary64_def u_def)
  also have "\<dots> = real_of_int (m * 2 ^ d) * 2 powi u"
    by (simp only: q rhe_of_int)
  also have "\<dots> = real_of_int m * (2 powi u * 2 ^ d)" by simp
  also have "\<dots> = x" by (simp only: x_def p)
  finally show ?thesis by (simp only: x_def)
qed

lemma binary64_dyadic:
  assumes "\<bar>m\<bar> < 2 ^ 53" and "n \<le> 1074"
  shows "binary64 (of_int m / 2 ^ n) = of_int m / 2 ^ n"
proof -
  have "(2::real) powi (- int n) = inverse (2 ^ n)" by (simp add: power_int_minus)
  then have "real_of_int m * 2 powi (- int n) = real_of_int m / 2 ^ n"
    by (simp add: divide_inverse)
  with binary64_exact [OF assms(1), of "- int n"] assms(2) show ?thesis by simp
qed


subsection \<open>The rounded sum and the rounded average\<close>





lemma extremes_ordered:
  assumes "scores \<noteq> []"
  shows "min_sentiment (group_entry scores value) \<le> max_sentiment (group_entry scores value)"
  using assms by (simp add: group_entry_def)

subsection \<open>The functions on the stand-ins\<close>

lemma stub_tokenize: "length (tokenize pipeline_stub c) = length c"
  by (simp add: pipeline_stub_def)

lemma stub_detokenize:
  "convert_tokens_to_string pipeline_stub (tokenize pipeline_stub c) = c"
  by (simp add: pipeline_stub_def)

lemma stub_classify:
  "classify pipeline_stub text =
     (if text = ''good'' then \<lparr>label = ''POSITIVE'', score = 3 / 4\<rparr>
      else \<lparr>label = ''NEGATIVE'', score = 1 / 2\<rparr>)"
  by (simp add: pipeline_stub_def)

lemma oversized_length: "length oversized = 510"
  by (simp add: oversized_def)

lemmas stub_simps = stub_tokenize stub_detokenize stub_classify oversized_length

lemma stub_vader:
  "vader_sentiment_analysis lexicon_stub [''great'', ''meh'', ''terrible''] = [5 / 8, 0, - (1 / 2)]"
  by (simp add: vader_map lexicon_stub_def)

lemma stub_hf_loop:
  "hf_loop pipeline_stub [''good'', ''bad''] [] =
     [\<lparr>label = ''POSITIVE'', score = 3 / 4\<rparr>, \<lparr>label = ''NEGATIVE'', score = 1 / 2\<rparr>]"
  by (simp add: hf_loop_filter stub_simps)

lemma stub_hf_mixed:
  "huggingface_sentiment_analysis pipeline_stub [oversized, ''good'', ''bad''] = [3 / 4, - (1 / 2)]"
  by (simp add: hf_map_filter stub_simps signed_score_def)

lemma stub_hf_short:
  "huggingface_sentiment_analysis pipeline_stub [''good'', ''bad''] = [3 / 4, - (1 / 2)]"
  by (simp add: hf_map_filter stub_simps signed_score_def)

lemma stub_hf_oversized: "huggingface_sentiment_analysis pipeline_stub [oversized] = []"
  by (simp add: hf_map_filter stub_simps)

lemma stub_hf_good: "huggingface_sentiment_analysis pipeline_stub [''good''] = [3 / 4]"
  by (simp add: hf_map_filter stub_simps signed_score_def)

lemma stub_hf_bad: "huggingface_sentiment_analysis pipeline_stub [''bad''] = [- (1 / 2)]"
  by (simp add: hf_map_filter stub_simps signed_score_def)

lemma stub_vader_pair:
  "vader_sentiment_analysis lexicon_stub [''great'', ''terrible''] = [5 / 8, - (1 / 2)]"
  by (simp add: vader_map lexicon_stub_def)

lemma stub_vader_ties:
  "vader_sentiment_analysis lexicon_stub [''meh'', ''great'', ''great'', ''meh''] = [0, 5 / 8, 5 / 8, 0]"
  by (simp add: vader_map lexicon_stub_def)

lemma binary64_samples:
  "binary64 0 = 0"
  "binary64 (1 / 16) = 1 / 16"
  "binary64 (1 / 8) = 1 / 8"
  "binary64 (1 / 4) = 1 / 4"
  "binary64 (5 / 16) = 5 / 16"
  "binary64 (5 / 8) = 5 / 8"
  "binary64 (3 / 4) = 3 / 4"
  "binary64 (5 / 4) = 5 / 4"
  using binary64_dyadic [of 0 0] binary64_dyadic [of 1 4] binary64_dyadic [of 1 3]
    binary64_dyadic [of 1 2] binary64_dyadic [of 5 4] binary64_dyadic [of 5 3]
    binary64_dyadic [of 3 2] binary64_dyadic [of 5 2]
  by simp_all

lemma summarise_pair:
  "summarise [5 / 8, - (1 / 2)] [''great'', ''terrible''] =
     Inr \<lparr>avg_sentiment = 1 / 16,
          max_sentiment_comment = ''great'', max_sentiment = 5 / 8,
          min_sentiment_comment = ''terrible'', min_sentiment = - (1 / 2)\<rparr>"
  by (simp add: summarise_def bind_result_def py_truediv_def py_sum_def py_getitem_def
      binary64_samples)

lemma summarise_ties:
  "summarise [0, 5 / 8, 5 / 8, 0] [''meh'', ''great'', ''great'', ''meh''] =
     Inr \<lparr>avg_sentiment = 5 / 16,
          max_sentiment_comment = ''great'', max_sentiment = 5 / 8,
          min_sentiment_comment = ''meh'', min_sentiment = 0\<rparr>"
  by (simp add: summarise_def bind_result_def py_truediv_def py_sum_def py_getitem_def
      binary64_samples)

lemma summarise_mixed:
  "summarise [3 / 4, - (1 / 2)] [oversized, ''good'', ''bad''] =
     Inr \<lparr>avg_sentiment = 1 / 8,
          max_sentiment_comment = oversized, max_sentiment = 3 / 4,
          min_sentiment_comment = ''good'', min_sentiment = - (1 / 2)\<rparr>"
  by (simp add: summarise_def bind_result_def py_truediv_def py_sum_def py_getitem_def
      binary64_samples)

lemma sample_run:
  "comments_sentiment_analysis lexicon_stub pipeline_stub sample_groups ''vader'' = Inr sample_result"
  by (simp add: comments_sentiment_analysis_def sample_groups_def sample_result_def
      stub_vader_pair stub_vader_ties summarise_pair summarise_ties)

lemma length_filter_eq_iff:
  "length (filter P xs) = length xs \<longleftrightarrow> (\<forall>x\<in>set xs. P x)"
proof
  assume eq: "length (filter P xs) = length xs"
  show "\<forall>x\<in>set xs. P x"
  proof (rule ccontr)
    assume "\<not> (\<forall>x\<in>set xs. P x)"
    then obtain x where "x \<in> set xs" and "\<not> P x" by blast
    then have "length (filter P xs) < length xs" by (rule length_filter_less)
    with eq show False by simp
  qed
next
  assume "\<forall>x\<in>set xs. P x"
  then show "length (filter P xs) = length xs" by simp
qed








section \<open>The claims\<close>

text \<open>
  C3. For every list of comments, \<open>vader_sentiment_analysis\<close> returns as many scores as
  there are comments, the score at position \<open>i\<close> is the compound score of the comment at
  position \<open>i\<close>, and no comment is skipped or cut whatever its length. When the compound
  scores of the lexicon lie in [-1, 1], as the library promises, so does every score
  returned.
\<close>

theorem vader_scores_parallel:
  assumes "\<forall>c\<in>set comments. - 1 \<le> compound (polarity_scores c) \<and> compound (polarity_scores c) \<le> 1"
  shows "length (vader_sentiment_analysis polarity_scores comments) = length comments \<and>
         (\<forall>i<length comments.
            vader_sentiment_analysis polarity_scores comments ! i =
              compound (polarity_scores (comments ! i))) \<and>
         (\<forall>x\<in>set (vader_sentiment_analysis polarity_scores comments). - 1 \<le> x \<and> x \<le> 1)"
  using assms by (auto simp: vader_map)

theorem vader_scores_parallel_witness:
  "compound (lexicon_stub ''great'') = 5 / 8 \<and>
   compound (lexicon_stub ''meh'') = 0 \<and>
   compound (lexicon_stub ''terrible'') = - (1 / 2) \<and>
   length (vader_sentiment_analysis lexicon_stub [''great'', ''meh'', ''terrible'']) =
     length [''great'', ''meh'', ''terrible''] \<and>
   vader_sentiment_analysis lexicon_stub [''great'', ''meh'', ''terrible''] ! 2 =
     compound (lexicon_stub ([''great'', ''meh'', ''terrible''] ! 2)) \<and>
   - 1 \<le> vader_sentiment_analysis lexicon_stub [''great'', ''meh'', ''terrible''] ! 2 \<and>
   vader_sentiment_analysis lexicon_stub [''great'', ''meh'', ''terrible''] ! 2 \<le> 1"
proof -
  have v: "compound (lexicon_stub ''great'') = 5 / 8" "compound (lexicon_stub ''meh'') = 0"
    "compound (lexicon_stub ''terrible'') = - (1 / 2)"
    by (simp_all add: lexicon_stub_def)
  then have h: "\<forall>c\<in>set [''great'', ''meh'', ''terrible''].
      - 1 \<le> compound (lexicon_stub c) \<and> compound (lexicon_stub c) \<le> 1"
    by simp
  note t = vader_scores_parallel [OF h]
  have len: "length (vader_sentiment_analysis lexicon_stub [''great'', ''meh'', ''terrible'']) =
     length [''great'', ''meh'', ''terrible'']"
    using t by (rule conjunct1)
  have nth: "vader_sentiment_analysis lexicon_stub [''great'', ''meh'', ''terrible''] ! 2 =
     compound (lexicon_stub ([''great'', ''meh'', ''terrible''] ! 2))"
    using t by simp
  have "- 1 \<le> vader_sentiment_analysis lexicon_stub [''great'', ''meh'', ''terrible''] ! 2 \<and>
    vader_sentiment_analysis lexicon_stub [''great'', ''meh'', ''terrible''] ! 2 \<le> 1"
    unfolding nth using v by simp
  with v len nth show ?thesis by blast
qed

text \<open>
  C4. \<open>huggingface_sentiment_analysis\<close> returns the signed scores of exactly the comments
  with fewer than 510 tokens, in their order: a comment with 510 tokens or more gets no
  score and no placeholder, every other comment gets one. So the output is at most as
  long as the input, and as long as the input just when no comment has 510 tokens or more.
\<close>

theorem hf_skips_oversized:
  "huggingface_sentiment_analysis p comments =
     map (\<lambda>c. signed_score (classify p (convert_tokens_to_string p (take 510 (tokenize p c)))))
         (filter (\<lambda>c. length (tokenize p c) < 510) comments) \<and>
   length (huggingface_sentiment_analysis p comments) =
     length (filter (\<lambda>c. length (tokenize p c) < 510) comments) \<and>
   length (huggingface_sentiment_analysis p comments) \<le> length comments \<and>
   (length (huggingface_sentiment_analysis p comments) = length comments \<longleftrightarrow>
      (\<forall>c\<in>set comments. length (tokenize p c) < 510))"
  by (simp add: hf_map_filter length_filter_eq_iff)

theorem hf_skips_oversized_witness:
  "length (huggingface_sentiment_analysis pipeline_stub [oversized, ''good'', ''bad'']) = 2 \<and>
   \<not> (\<forall>c\<in>set [oversized, ''good'', ''bad'']. length (tokenize pipeline_stub c) < 510) \<and>
   length (tokenize pipeline_stub oversized) = 510 \<and>
   length (huggingface_sentiment_analysis pipeline_stub [''good'', ''bad'']) = length [''good'', ''bad''] \<and>
   length (tokenize pipeline_stub ''good'') < 510 \<and>
   length (tokenize pipeline_stub ''bad'') < 510"
proof -
  have short: "\<forall>c\<in>set [''good'', ''bad'']. length (tokenize pipeline_stub c) < 510"
    by (simp add: stub_tokenize)
  have long: "\<not> (\<forall>c\<in>set [oversized, ''good'', ''bad'']. length (tokenize pipeline_stub c) < 510)"
    by (simp add: stub_tokenize oversized_length)
  from hf_skips_oversized [of pipeline_stub "[''good'', ''bad'']"] short
  have a: "length (huggingface_sentiment_analysis pipeline_stub [''good'', ''bad'']) =
           length [''good'', ''bad'']"
    by blast
  from hf_skips_oversized [of pipeline_stub "[oversized, ''good'', ''bad'']"]
  have b: "length (huggingface_sentiment_analysis pipeline_stub [oversized, ''good'', ''bad'']) = 2"
    by (simp add: stub_tokenize oversized_length)
  from a b long show ?thesis by (simp add: stub_tokenize oversized_length)
qed

text \<open>
  C5. In \<open>huggingface_sentiment_analysis\<close> the score at position \<open>i\<close> of the output comes
  from the classifier result at position \<open>i\<close>: with a confidence \<open>c\<close> in [0, 1], the label
  "POSITIVE" gives \<open>c\<close>, the label "NEGATIVE" gives \<open>- c\<close>, and the score lies in [-1, 1].
\<close>

theorem label_decides_sign:
  assumes "\<forall>r\<in>set (hf_loop p comments []). 0 \<le> score r \<and> score r \<le> 1"
  shows "length (huggingface_sentiment_analysis p comments) = length (hf_loop p comments []) \<and>
         (\<forall>i<length (hf_loop p comments []).
            (label (hf_loop p comments [] ! i) = ''POSITIVE'' \<longrightarrow>
               huggingface_sentiment_analysis p comments ! i = score (hf_loop p comments [] ! i)) \<and>
            (label (hf_loop p comments [] ! i) = ''NEGATIVE'' \<longrightarrow>
               huggingface_sentiment_analysis p comments ! i = - score (hf_loop p comments [] ! i)) \<and>
            - 1 \<le> huggingface_sentiment_analysis p comments ! i \<and>
            huggingface_sentiment_analysis p comments ! i \<le> 1)"
proof -
  have "- 1 \<le> signed_score r \<and> signed_score r \<le> 1" if "r \<in> set (hf_loop p comments [])" for r
    using assms that by (auto simp: signed_score_def)
  then show ?thesis
    by (auto simp: huggingface_sentiment_analysis_def signed_score_def)
qed

theorem label_decides_sign_witness:
  "hf_loop pipeline_stub [''good'', ''bad''] [] =
     [\<lparr>label = ''POSITIVE'', score = 3 / 4\<rparr>, \<lparr>label = ''NEGATIVE'', score = 1 / 2\<rparr>] \<and>
   huggingface_sentiment_analysis pipeline_stub [''good'', ''bad''] ! 0 = 3 / 4 \<and>
   huggingface_sentiment_analysis pipeline_stub [''good'', ''bad''] ! 1 = - (1 / 2)"
proof -
  have h: "\<forall>r\<in>set (hf_loop pipeline_stub [''good'', ''bad''] []). 0 \<le> score r \<and> score r \<le> 1"
    unfolding stub_hf_loop by simp
  note t = label_decides_sign [OF h, unfolded stub_hf_loop, THEN conjunct2, rule_format]
  have "huggingface_sentiment_analysis pipeline_stub [''good'', ''bad''] ! 0 = 3 / 4"
    using t [of 0] by simp
  moreover have "huggingface_sentiment_analysis pipeline_stub [''good'', ''bad''] ! 1 = - (1 / 2)"
    using t [of 1] by simp
  ultimately show ?thesis using stub_hf_loop by blast
qed

text \<open>
  C7. With a method other than "vader" and "ml", \<open>comments_sentiment_analysis\<close> returns
  the empty mapping for every input, and raises nothing.
\<close>

theorem unsupported_method_empty:
  assumes "method \<noteq> ''vader''" and "method \<noteq> ''ml''"
  shows "comments_sentiment_analysis polarity_scores sentiment_pipeline comments method = Inr []"
  using assms by (rule csa_unsupported)

theorem unsupported_method_empty_witness:
  "comments_sentiment_analysis lexicon_stub pipeline_stub
     [(''2023-01'', [''great'', ''terrible'']), (''2023-02'', [oversized])] ''unknown'' = Inr []"
  using unsupported_method_empty [of "''unknown''" lexicon_stub pipeline_stub
      "[(''2023-01'', [''great'', ''terrible'']), (''2023-02'', [oversized])]"]
  by simp

text \<open>
  C1. The claim says that the comment reported with an extreme is a comment whose score
  is that extreme. The lexicon path does this (\<open>vader_extremes_match\<close>). The classifier
  path does not when a comment was skipped: with the method "ml" and the group
  \<open>[oversized, "good", "bad"]\<close> the scores are \<open>[3/4, -1/2]\<close>, one place to the left of
  their comments, so the comment reported for the maximum 3/4 is the oversized one,
  which has no score, and the comment reported for the minimum -1/2 is "good", whose
  score is 3/4.
\<close>

theorem ml_skip_misaligns_extremes:
  "comments_sentiment_analysis lexicon_stub pipeline_stub
       [(''2023-01'', [oversized, ''good'', ''bad''])] ''ml'' =
     Inr [(''2023-01'',
           \<lparr>avg_sentiment = 1 / 8,
            max_sentiment_comment = oversized, max_sentiment = 3 / 4,
            min_sentiment_comment = ''good'', min_sentiment = - (1 / 2)\<rparr>)] \<and>
   huggingface_sentiment_analysis pipeline_stub [oversized] = [] \<and>
   huggingface_sentiment_analysis pipeline_stub [''good''] = [3 / 4] \<and>
   huggingface_sentiment_analysis pipeline_stub [''bad''] = [- (1 / 2)]"
  by (simp add: comments_sentiment_analysis_def stub_hf_mixed summarise_mixed
      stub_hf_oversized stub_hf_good stub_hf_bad)

text \<open>
  C2. With the method "ml", \<open>comments_sentiment_analysis\<close> raises ZeroDivisionError exactly
  when the mapping has a group that is not empty and whose comments all have 510 tokens
  or more (a sole oversized comment is the smallest case). No call, with any method,
  raises anything else: the ValueError of \<open>max\<close>, \<open>min\<close> and \<open>index\<close> and the IndexError
  of the positional lookup are never reached, and only the method "ml" can fail.
\<close>

theorem ml_emptied_group_raises:
  "(comments_sentiment_analysis polarity_scores sentiment_pipeline comments ''ml'' =
      Inl ZeroDivisionError \<longleftrightarrow>
    (\<exists>(key, value)\<in>set comments.
       value \<noteq> [] \<and> (\<forall>c\<in>set value. 510 \<le> length (tokenize sentiment_pipeline c)))) \<and>
   (\<forall>e. comments_sentiment_analysis polarity_scores sentiment_pipeline comments method = Inl e \<longrightarrow>
      e = ZeroDivisionError \<and> method = ''ml'')"
proof (intro conjI iffI allI impI)
  assume "comments_sentiment_analysis polarity_scores sentiment_pipeline comments ''ml'' =
      Inl ZeroDivisionError"
  from csa_error_is_ml_division [OF this]
  show "\<exists>(key, value)\<in>set comments.
       value \<noteq> [] \<and> (\<forall>c\<in>set value. 510 \<le> length (tokenize sentiment_pipeline c))"
    by simp
next
  assume "\<exists>(key, value)\<in>set comments.
       value \<noteq> [] \<and> (\<forall>c\<in>set value. 510 \<le> length (tokenize sentiment_pipeline c))"
  then obtain key "value" where "(key, value) \<in> set comments" "value \<noteq> []"
    "\<forall>c\<in>set value. 510 \<le> length (tokenize sentiment_pipeline c)" by auto
  then show "comments_sentiment_analysis polarity_scores sentiment_pipeline comments ''ml'' =
      Inl ZeroDivisionError"
    by (rule csa_ml_raises)
next
  fix e
  assume "comments_sentiment_analysis polarity_scores sentiment_pipeline comments method = Inl e"
  from csa_error_is_ml_division [OF this] show "e = ZeroDivisionError" by simp
next
  fix e
  assume "comments_sentiment_analysis polarity_scores sentiment_pipeline comments method = Inl e"
  from csa_error_is_ml_division [OF this] show "method = ''ml''" by simp
qed

theorem ml_emptied_group_raises_witness:
  "(''2023-02'', [oversized]) \<in> set [(''2023-01'', [''good'']), (''2023-02'', [oversized])] \<and>
   [oversized] \<noteq> [] \<and>
   510 \<le> length (tokenize pipeline_stub oversized) \<and>
   comments_sentiment_analysis lexicon_stub pipeline_stub
     [(''2023-01'', [''good'']), (''2023-02'', [oversized])] ''ml'' = Inl ZeroDivisionError \<and>
   comments_sentiment_analysis lexicon_stub pipeline_stub
     [(''2023-01'', [''good'']), (''2023-02'', [oversized])] ''vader'' \<noteq> Inl ZeroDivisionError"
proof -
  have h: "\<exists>(key, value)\<in>set [(''2023-01'', [''good'']), (''2023-02'', [oversized])].
       value \<noteq> [] \<and> (\<forall>c\<in>set value. 510 \<le> length (tokenize pipeline_stub c))"
    by (simp add: stub_tokenize oversized_length)
  note t = ml_emptied_group_raises [of lexicon_stub pipeline_stub
      "[(''2023-01'', [''good'']), (''2023-02'', [oversized])]" "''vader''"]
  from t h have a: "comments_sentiment_analysis lexicon_stub pipeline_stub
     [(''2023-01'', [''good'']), (''2023-02'', [oversized])] ''ml'' = Inl ZeroDivisionError"
    by blast
  from t have b: "comments_sentiment_analysis lexicon_stub pipeline_stub
     [(''2023-01'', [''good'']), (''2023-02'', [oversized])] ''vader'' \<noteq> Inl ZeroDivisionError"
    by auto
  from a b show ?thesis by (simp add: stub_tokenize oversized_length)
qed

text \<open>
  C6. Whatever the method, a key that is not in the input is not in the result, and a
  key whose comment list is empty is not in the result either. (The items of a
  dictionary have distinct keys.)
\<close>

theorem empty_or_absent_group_omitted:
  assumes "comments_sentiment_analysis polarity_scores sentiment_pipeline comments method = Inr res"
  shows "(key \<notin> fst ` set comments \<longrightarrow> key \<notin> fst ` set res) \<and>
         (distinct (map fst comments) \<and> (key, []) \<in> set comments \<longrightarrow> key \<notin> fst ` set res)"
proof (intro conjI impI)
  assume absent: "key \<notin> fst ` set comments"
  show "key \<notin> fst ` set res"
  proof
    assume "key \<in> fst ` set res"
    with csa_keys [OF assms] obtain v where "(key, v) \<in> set comments" by auto
    then have "key \<in> fst ` set comments" by force
    with absent show False by simp
  qed
next
  assume h: "distinct (map fst comments) \<and> (key, []) \<in> set comments"
  show "key \<notin> fst ` set res"
  proof
    assume "key \<in> fst ` set res"
    with csa_keys [OF assms] obtain v where v: "(key, v) \<in> set comments" "v \<noteq> []" by auto
    from h v(1) have "v = []" by (metis eq_key_imp_eq_value)
    with v(2) show False by simp
  qed
qed

theorem empty_or_absent_group_omitted_witness:
  "comments_sentiment_analysis lexicon_stub pipeline_stub sample_groups ''vader'' = Inr sample_result \<and>
   distinct (map fst sample_groups) \<and>
   (''2023-02'', []) \<in> set sample_groups \<and>
   ''2023-02'' \<notin> fst ` set sample_result \<and>
   ''2022-12'' \<notin> fst ` set sample_groups \<and>
   ''2022-12'' \<notin> fst ` set sample_result"
proof -
  have d: "distinct (map fst sample_groups) \<and> (''2023-02'', []) \<in> set sample_groups"
    by (simp add: sample_groups_def)
  have a: "''2022-12'' \<notin> fst ` set sample_groups"
    by (simp add: sample_groups_def)
  from empty_or_absent_group_omitted [OF sample_run, of "''2023-02''"] d
  have "''2023-02'' \<notin> fst ` set sample_result" by blast
  moreover from empty_or_absent_group_omitted [OF sample_run, of "''2022-12''"] a
  have "''2022-12'' \<notin> fst ` set sample_result" by blast
  ultimately show ?thesis using sample_run d a by blast
qed

text \<open>
  C8. The keys of the result ascend strictly in the lexicographic order of strings,
  whatever the order of the items of the input: two listings of the same dictionary
  give the same result.
\<close>

theorem result_sorted_by_key:
  assumes "comments_sentiment_analysis polarity_scores sentiment_pipeline comments method = Inr res"
  shows "sorted (map fst res) \<and> distinct (map fst res) \<and>
         (\<forall>comments'.
            set comments' = set comments \<and> distinct (map fst comments) \<and>
            distinct (map fst comments') \<longrightarrow>
            comments_sentiment_analysis polarity_scores sentiment_pipeline comments' method = Inr res)"
  using assms csa_sorted [OF assms] by (simp add: csa_order_irrelevant)

theorem result_sorted_by_key_witness:
  "comments_sentiment_analysis lexicon_stub pipeline_stub sample_groups ''vader'' = Inr sample_result \<and>
   map fst sample_groups = [''2023-02'', ''2023-03'', ''2023-01''] \<and>
   map fst sample_result = [''2023-01'', ''2023-03''] \<and>
   sorted (map fst sample_result) \<and> distinct (map fst sample_result) \<and>
   set (rev sample_groups) = set sample_groups \<and>
   distinct (map fst sample_groups) \<and>
   distinct (map fst (rev sample_groups)) \<and>
   comments_sentiment_analysis lexicon_stub pipeline_stub (rev sample_groups) ''vader'' =
     Inr sample_result"
proof -
  have k: "map fst sample_groups = [''2023-02'', ''2023-03'', ''2023-01'']"
    by (simp add: sample_groups_def)
  have k': "map fst sample_result = [''2023-01'', ''2023-03'']"
    by (simp add: sample_result_def)
  have d: "distinct (map fst sample_groups)"
    by (simp add: sample_groups_def)
  then have "distinct (map fst (rev sample_groups))"
    by (simp add: rev_map [symmetric])
  with d have h: "set (rev sample_groups) = set sample_groups \<and>
      distinct (map fst sample_groups) \<and> distinct (map fst (rev sample_groups))"
    by simp
  note t = result_sorted_by_key [OF sample_run]
  from t h have "comments_sentiment_analysis lexicon_stub pipeline_stub (rev sample_groups) ''vader'' =
     Inr sample_result"
    by blast
  with t k k' h sample_run show ?thesis by blast
qed

text \<open>
  C10. For a group of the result, let \<open>scores\<close> be the list its scorer returns. The
  reported maximum is the greatest score, the comment reported with it is the input
  comment at the first position of \<open>scores\<close> that holds this value, and likewise for the
  minimum. On the lexicon path that position is the first comment of the group whose
  own score is the extreme.
\<close>

theorem extreme_comment_first_index:
  assumes run: "comments_sentiment_analysis polarity_scores sentiment_pipeline comments method = Inr res"
    and dist: "distinct (map fst comments)"
    and inp: "(key, value) \<in> set comments"
    and out: "(key, entry) \<in> set res"
    and sc: "scores = (if method = ''vader'' then vader_sentiment_analysis polarity_scores value
                       else huggingface_sentiment_analysis sentiment_pipeline value)"
  shows "(\<exists>i<length scores. i < length value \<and>
            max_sentiment_comment entry = value ! i \<and>
            scores ! i = max_sentiment entry \<and>
            (\<forall>j<i. scores ! j \<noteq> max_sentiment entry) \<and>
            (\<forall>x\<in>set scores. x \<le> max_sentiment entry)) \<and>
         (\<exists>i<length scores. i < length value \<and>
            min_sentiment_comment entry = value ! i \<and>
            scores ! i = min_sentiment entry \<and>
            (\<forall>j<i. scores ! j \<noteq> min_sentiment entry) \<and>
            (\<forall>x\<in>set scores. min_sentiment entry \<le> x)) \<and>
         (method = ''vader'' \<longrightarrow>
            (\<exists>i<length value.
               max_sentiment_comment entry = value ! i \<and>
               compound (polarity_scores (value ! i)) = max_sentiment entry \<and>
               (\<forall>j<i. compound (polarity_scores (value ! j)) \<noteq> max_sentiment entry)) \<and>
            (\<exists>i<length value.
               min_sentiment_comment entry = value ! i \<and>
               compound (polarity_scores (value ! i)) = min_sentiment entry \<and>
               (\<forall>j<i. compound (polarity_scores (value ! j)) \<noteq> min_sentiment entry)))"
proof -
  have s: "scores = scorer_of polarity_scores sentiment_pipeline method value"
    using sc by (simp add: scorer_of_if)
  from csa_entry [OF run dist inp out]
  have ne: "scores \<noteq> []" and e: "entry = group_entry scores value"
    by (simp_all add: s)
  have len: "length scores \<le> length value" unfolding s by (rule scorer_of_length)
  let ?i = "first_index scores (max_sentiment entry)"
  let ?j = "first_index scores (min_sentiment entry)"
  have i: "?i < length scores" "scores ! ?i = max_sentiment entry"
    "max_sentiment_comment entry = value ! ?i" "\<forall>x\<in>set scores. x \<le> max_sentiment entry"
    unfolding e using group_entry_max [OF ne, of "value"] by blast+
  have j: "?j < length scores" "scores ! ?j = min_sentiment entry"
    "min_sentiment_comment entry = value ! ?j" "\<forall>x\<in>set scores. min_sentiment entry \<le> x"
    unfolding e using group_entry_min [OF ne, of "value"] by blast+
  have il: "\<forall>k<?i. scores ! k \<noteq> max_sentiment entry" by (simp add: first_index_least)
  have jl: "\<forall>k<?j. scores ! k \<noteq> min_sentiment entry" by (simp add: first_index_least)
  have A: "\<exists>i<length scores. i < length value \<and>
            max_sentiment_comment entry = value ! i \<and>
            scores ! i = max_sentiment entry \<and>
            (\<forall>j<i. scores ! j \<noteq> max_sentiment entry) \<and>
            (\<forall>x\<in>set scores. x \<le> max_sentiment entry)"
    using i il len by (intro exI [of _ ?i]) simp
  have B: "\<exists>i<length scores. i < length value \<and>
            min_sentiment_comment entry = value ! i \<and>
            scores ! i = min_sentiment entry \<and>
            (\<forall>j<i. scores ! j \<noteq> min_sentiment entry) \<and>
            (\<forall>x\<in>set scores. min_sentiment entry \<le> x)"
    using j jl len by (intro exI [of _ ?j]) simp
  have C: "(\<exists>i<length value.
               max_sentiment_comment entry = value ! i \<and>
               compound (polarity_scores (value ! i)) = max_sentiment entry \<and>
               (\<forall>j<i. compound (polarity_scores (value ! j)) \<noteq> max_sentiment entry)) \<and>
            (\<exists>i<length value.
               min_sentiment_comment entry = value ! i \<and>
               compound (polarity_scores (value ! i)) = min_sentiment entry \<and>
               (\<forall>j<i. compound (polarity_scores (value ! j)) \<noteq> min_sentiment entry))"
    if v: "method = ''vader''"
  proof -
    from v sc have m: "scores = map (\<lambda>c. compound (polarity_scores c)) value"
      by (simp add: vader_map)
    then have l: "length scores = length value" by simp
    have n: "scores ! k = compound (polarity_scores (value ! k))" if "k < length value" for k
      using that m by simp
    have "?i < length value \<and> max_sentiment_comment entry = value ! ?i \<and>
          compound (polarity_scores (value ! ?i)) = max_sentiment entry \<and>
          (\<forall>k<?i. compound (polarity_scores (value ! k)) \<noteq> max_sentiment entry)"
      using i il l n by (metis less_trans)
    moreover have "?j < length value \<and> min_sentiment_comment entry = value ! ?j \<and>
          compound (polarity_scores (value ! ?j)) = min_sentiment entry \<and>
          (\<forall>k<?j. compound (polarity_scores (value ! k)) \<noteq> min_sentiment entry)"
      using j jl l n by (metis less_trans)
    ultimately show ?thesis by blast
  qed
  from A B C show ?thesis by blast
qed

theorem extreme_comment_first_index_witness:
  "comments_sentiment_analysis lexicon_stub pipeline_stub sample_groups ''vader'' = Inr sample_result \<and>
   distinct (map fst sample_groups) \<and>
   (''2023-03'', [''meh'', ''great'', ''great'', ''meh'']) \<in> set sample_groups \<and>
   (''2023-03'',
      \<lparr>avg_sentiment = 5 / 16,
       max_sentiment_comment = ''great'', max_sentiment = 5 / 8,
       min_sentiment_comment = ''meh'', min_sentiment = 0\<rparr>) \<in> set sample_result \<and>
   vader_sentiment_analysis lexicon_stub [''meh'', ''great'', ''great'', ''meh''] = [0, 5 / 8, 5 / 8, 0 :: real] \<and>
   (\<exists>i<length [0, 5 / 8, 5 / 8, 0 :: real]. i < length [''meh'', ''great'', ''great'', ''meh''] \<and>
      max_sentiment_comment
        \<lparr>avg_sentiment = 5 / 16,
       max_sentiment_comment = ''great'', max_sentiment = 5 / 8,
       min_sentiment_comment = ''meh'', min_sentiment = 0\<rparr> = [''meh'', ''great'', ''great'', ''meh''] ! i \<and>
      [0, 5 / 8, 5 / 8, 0 :: real] ! i =
        max_sentiment
        \<lparr>avg_sentiment = 5 / 16,
       max_sentiment_comment = ''great'', max_sentiment = 5 / 8,
       min_sentiment_comment = ''meh'', min_sentiment = 0\<rparr> \<and>
      (\<forall>j<i. [0, 5 / 8, 5 / 8, 0 :: real] ! j \<noteq>
        max_sentiment
        \<lparr>avg_sentiment = 5 / 16,
       max_sentiment_comment = ''great'', max_sentiment = 5 / 8,
       min_sentiment_comment = ''meh'', min_sentiment = 0\<rparr>) \<and>
      (\<forall>x\<in>set [0, 5 / 8, 5 / 8, 0 :: real]. x \<le> max_sentiment
        \<lparr>avg_sentiment = 5 / 16,
       max_sentiment_comment = ''great'', max_sentiment = 5 / 8,
       min_sentiment_comment = ''meh'', min_sentiment = 0\<rparr>)) \<and>
   (\<exists>i<length [0, 5 / 8, 5 / 8, 0 :: real]. i < length [''meh'', ''great'', ''great'', ''meh''] \<and>
      min_sentiment_comment
        \<lparr>avg_sentiment = 5 / 16,
       max_sentiment_comment = ''great'', max_sentiment = 5 / 8,
       min_sentiment_comment = ''meh'', min_sentiment = 0\<rparr> = [''meh'', ''great'', ''great'', ''meh''] ! i \<and>
      [0, 5 / 8, 5 / 8, 0 :: real] ! i =
        min_sentiment
        \<lparr>avg_sentiment = 5 / 16,
       max_sentiment_comment = ''great'', max_sentiment = 5 / 8,
       min_sentiment_comment = ''meh'', min_sentiment = 0\<rparr> \<and>
      (\<forall>j<i. [0, 5 / 8, 5 / 8, 0 :: real] ! j \<noteq>
        min_sentiment
        \<lparr>avg_sentiment = 5 / 16,
       max_sentiment_comment = ''great'', max_sentiment = 5 / 8,
       min_sentiment_comment = ''meh'', min_sentiment = 0\<rparr>) \<and>
      (\<forall>x\<in>set [0, 5 / 8, 5 / 8, 0 :: real]. min_sentiment
        \<lparr>avg_sentiment = 5 / 16,
       max_sentiment_comment = ''great'', max_sentiment = 5 / 8,
       min_sentiment_comment = ''meh'', min_sentiment = 0\<rparr> \<le> x))"
proof -
  have d: "distinct (map fst sample_groups)"
    by (simp add: sample_groups_def)
  have inp: "(''2023-03'', [''meh'', ''great'', ''great'', ''meh'']) \<in> set sample_groups"
    by (simp add: sample_groups_def)
  have out: "(''2023-03'',
      \<lparr>avg_sentiment = 5 / 16,
       max_sentiment_comment = ''great'', max_sentiment = 5 / 8,
       min_sentiment_comment = ''meh'', min_sentiment = 0\<rparr>) \<in> set sample_result"
    by (simp add: sample_result_def)
  have sc: "[0, 5 / 8, 5 / 8, 0 :: real] =
    (if ''vader'' = ''vader''
     then vader_sentiment_analysis lexicon_stub [''meh'', ''great'', ''great'', ''meh'']
     else huggingface_sentiment_analysis pipeline_stub [''meh'', ''great'', ''great'', ''meh''])"
    by (simp add: stub_vader_ties)
  note t = extreme_comment_first_index [OF sample_run d inp out sc]
  from t have a: "(\<exists>i<length [0, 5 / 8, 5 / 8, 0 :: real]. i < length [''meh'', ''great'', ''great'', ''meh''] \<and>
      max_sentiment_comment
        \<lparr>avg_sentiment = 5 / 16,
       max_sentiment_comment = ''great'', max_sentiment = 5 / 8,
       min_sentiment_comment = ''meh'', min_sentiment = 0\<rparr> = [''meh'', ''great'', ''great'', ''meh''] ! i \<and>
      [0, 5 / 8, 5 / 8, 0 :: real] ! i =
        max_sentiment
        \<lparr>avg_sentiment = 5 / 16,
       max_sentiment_comment = ''great'', max_sentiment = 5 / 8,
       min_sentiment_comment = ''meh'', min_sentiment = 0\<rparr> \<and>
      (\<forall>j<i. [0, 5 / 8, 5 / 8, 0 :: real] ! j \<noteq>
        max_sentiment
        \<lparr>avg_sentiment = 5 / 16,
       max_sentiment_comment = ''great'', max_sentiment = 5 / 8,
       min_sentiment_comment = ''meh'', min_sentiment = 0\<rparr>) \<and>
      (\<forall>x\<in>set [0, 5 / 8, 5 / 8, 0 :: real]. x \<le> max_sentiment
        \<lparr>avg_sentiment = 5 / 16,
       max_sentiment_comment = ''great'', max_sentiment = 5 / 8,
       min_sentiment_comment = ''meh'', min_sentiment = 0\<rparr>))"
    by (rule conjunct1)
  from t have b: "(\<exists>i<length [0, 5 / 8, 5 / 8, 0 :: real]. i < length [''meh'', ''great'', ''great'', ''meh''] \<and>
      min_sentiment_comment
        \<lparr>avg_sentiment = 5 / 16,
       max_sentiment_comment = ''great'', max_sentiment = 5 / 8,
       min_sentiment_comment = ''meh'', min_sentiment = 0\<rparr> = [''meh'', ''great'', ''great'', ''meh''] ! i \<and>
      [0, 5 / 8, 5 / 8, 0 :: real] ! i =
        min_sentiment
        \<lparr>avg_sentiment = 5 / 16,
       max_sentiment_comment = ''great'', max_sentiment = 5 / 8,
       min_sentiment_comment = ''meh'', min_sentiment = 0\<rparr> \<and>
      (\<forall>j<i. [0, 5 / 8, 5 / 8, 0 :: real] ! j \<noteq>
        min_sentiment
        \<lparr>avg_sentiment = 5 / 16,
       max_sentiment_comment = ''great'', max_sentiment = 5 / 8,
       min_sentiment_comment = ''meh'', min_sentiment = 0\<rparr>) \<and>
      (\<forall>x\<in>set [0, 5 / 8, 5 / 8, 0 :: real]. min_sentiment
        \<lparr>avg_sentiment = 5 / 16,
       max_sentiment_comment = ''great'', max_sentiment = 5 / 8,
       min_sentiment_comment = ''meh'', min_sentiment = 0\<rparr> \<le> x))"
    by (rule conjunct2 [THEN conjunct1])
  from sample_run d inp out stub_vader_ties a b show ?thesis by blast
qed




end
